theory Spec2Isabelle
  imports Complex_Main "HOL-Library.Sublist" "HOL-Library.Multiset"
begin

section \<open>Python values and strings\<close>

text \<open>
  A Python \<open>str\<close> is modelled as a \<open>string\<close> whose characters are the code points
  0..255 (Latin-1). The character classes below are the ones Python 3 uses for
  \<open>str.isspace\<close>, the regex classes \<open>\s\<close>, \<open>\d\<close>, \<open>\w\<close>, \<open>str.lower\<close> and
  \<open>str.isupper\<close>, restricted to that range. A Python \<open>float\<close> is modelled by the
  exact rational it stands for.
\<close>

datatype py_error = KeyError | IndexError | TypeError | AttributeError

datatype pyval = PInt int | PStr string

type_synonym chunk = "string \<rightharpoonup> pyval"

definition nl :: char where
  "nl = CHR 0x0A"

definition is_space :: "char \<Rightarrow> bool" where
  "is_space c \<longleftrightarrow>
     c \<in> set [CHR 0x20, CHR 0x0A, CHR 0x09, CHR 0x0D, CHR 0x0B, CHR 0x0C,
                CHR 0x1C, CHR 0x1D, CHR 0x1E, CHR 0x1F, CHR 0x85, CHR 0xA0]"

definition is_digit :: "char \<Rightarrow> bool" where
  "is_digit c \<longleftrightarrow> c \<in> set ''0123456789''"

definition is_ascii_alpha :: "char \<Rightarrow> bool" where
  "is_ascii_alpha c \<longleftrightarrow>
     c \<in> set ''abcdefghijklmnopqrstuvwxyzABCDEFGHIJKLMNOPQRSTUVWXYZ''"

text \<open>The upper-case letters: \<open>A\<close> to \<open>Z\<close> and the code points C0 to DE without D7.\<close>

definition is_upper :: "char \<Rightarrow> bool" where
  "is_upper c \<longleftrightarrow>
     c \<in> set (''ABCDEFGHIJKLMNOPQRSTUVWXYZ'' @
       [CHR 0xC0, CHR 0xC1, CHR 0xC2, CHR 0xC3, CHR 0xC4, CHR 0xC5, CHR 0xC6, CHR 0xC7,
        CHR 0xC8, CHR 0xC9, CHR 0xCA, CHR 0xCB, CHR 0xCC, CHR 0xCD, CHR 0xCE, CHR 0xCF,
        CHR 0xD0, CHR 0xD1, CHR 0xD2, CHR 0xD3, CHR 0xD4, CHR 0xD5, CHR 0xD6, CHR 0xD8,
        CHR 0xD9, CHR 0xDA, CHR 0xDB, CHR 0xDC, CHR 0xDD, CHR 0xDE])"

text \<open>The word characters of \<open>\w\<close>: letters, digits, the underscore, and the
  alphanumeric code points above 7F.\<close>

definition is_word :: "char \<Rightarrow> bool" where
  "is_word c \<longleftrightarrow>
     is_ascii_alpha c \<or> is_digit c \<or> c = CHR ''_'' \<or>
     c \<in> set
       [CHR 0xAA, CHR 0xB2, CHR 0xB3, CHR 0xB5, CHR 0xB9, CHR 0xBA, CHR 0xBC, CHR 0xBD,
        CHR 0xBE, CHR 0xC0, CHR 0xC1, CHR 0xC2, CHR 0xC3, CHR 0xC4, CHR 0xC5, CHR 0xC6,
        CHR 0xC7, CHR 0xC8, CHR 0xC9, CHR 0xCA, CHR 0xCB, CHR 0xCC, CHR 0xCD, CHR 0xCE,
        CHR 0xCF, CHR 0xD0, CHR 0xD1, CHR 0xD2, CHR 0xD3, CHR 0xD4, CHR 0xD5, CHR 0xD6,
        CHR 0xD8, CHR 0xD9, CHR 0xDA, CHR 0xDB, CHR 0xDC, CHR 0xDD, CHR 0xDE, CHR 0xDF,
        CHR 0xE0, CHR 0xE1, CHR 0xE2, CHR 0xE3, CHR 0xE4, CHR 0xE5, CHR 0xE6, CHR 0xE7,
        CHR 0xE8, CHR 0xE9, CHR 0xEA, CHR 0xEB, CHR 0xEC, CHR 0xED, CHR 0xEE, CHR 0xEF,
        CHR 0xF0, CHR 0xF1, CHR 0xF2, CHR 0xF3, CHR 0xF4, CHR 0xF5, CHR 0xF6, CHR 0xF8,
        CHR 0xF9, CHR 0xFA, CHR 0xFB, CHR 0xFC, CHR 0xFD, CHR 0xFE, CHR 0xFF]"

definition to_lower :: "char \<Rightarrow> char" where
  "to_lower c = (if is_upper c then char_of ((of_char c :: nat) + 32) else c)"

definition lower :: "string \<Rightarrow> string" where
  "lower s = map to_lower s"

text \<open>A literal matched with \<open>re.IGNORECASE\<close> at the start of a string: each
  character is the lower-case or the upper-case letter of the pattern.\<close>

fun prefix_ci :: "(char \<times> char) list \<Rightarrow> string \<Rightarrow> bool" where
  "prefix_ci [] t = True"
| "prefix_ci (p # ps) [] = False"
| "prefix_ci ((l, u) # ps) (c # cs) = (if c = l \<or> c = u then prefix_ci ps cs else False)"

definition chapter_ci :: "(char \<times> char) list" where
  "chapter_ci = zip ''chapter'' ''CHAPTER''"


text \<open>\<open>s.strip()\<close>\<close>

definition py_strip :: "string \<Rightarrow> string" where
  "py_strip s = rev (dropWhile is_space (rev (dropWhile is_space s)))"

text \<open>The maximal runs of characters satisfying \<open>p\<close>: \<open>re.findall\<close> of a one-class
  pattern \<open>[p]+\<close>, and \<open>s.split()\<close> for the non-space characters.\<close>

fun runs :: "(char \<Rightarrow> bool) \<Rightarrow> string \<Rightarrow> string \<Rightarrow> string list" where
  "runs p cur [] = (if cur = [] then [] else [rev cur])"
| "runs p cur (c # cs) =
     (if p c then runs p (c # cur) cs
      else (if cur = [] then [] else [rev cur]) @ runs p [] cs)"

definition findall_w :: "string \<Rightarrow> string list" where
  "findall_w s = runs is_word [] s"



section \<open>Lexical scorer\<close>

text \<open>\<open>simple_text_similarity\<close> of \<open>api_server.py\<close>.\<close>

definition simple_text_similarity :: "string \<Rightarrow> string \<Rightarrow> rat" where
  "simple_text_similarity query text =
     (let query_words = set (findall_w (lower query));
          text_words = set (findall_w (lower text))
      in if query_words = {} \<or> text_words = {} then 0
         else (let intersection = query_words \<inter> text_words;
                   union = query_words \<union> text_words
               in of_nat (card intersection) / of_nat (card union)))"

section \<open>Indexing and slicing\<close>

text \<open>\<open>xs[i]\<close>: a negative index counts from the end, an index out of range raises.\<close>

definition py_index :: "'a list \<Rightarrow> int \<Rightarrow> py_error + 'a" where
  "py_index xs i =
     (if 0 \<le> i \<and> i < int (length xs) then Inr (xs ! nat i)
      else if i < 0 \<and> - int (length xs) \<le> i then Inr (xs ! nat (int (length xs) + i))
      else Inl IndexError)"

text \<open>A slice bound, as Python normalises it: a negative bound counts from the end,
  and the result is clamped to \<open>0..len\<close>.\<close>

definition slice_bound :: "nat \<Rightarrow> int \<Rightarrow> nat" where
  "slice_bound n i = (if i < 0 then nat (int n + i) else min (nat i) n)"

text \<open>\<open>xs[a:b]\<close> and \<open>xs[:b]\<close>\<close>

definition py_slice :: "'a list \<Rightarrow> int \<Rightarrow> int \<Rightarrow> 'a list" where
  "py_slice xs a b =
     (let lo = slice_bound (length xs) a; hi = slice_bound (length xs) b
      in take (hi - lo) (drop lo xs))"


section \<open>Chunker\<close>

text \<open>\<open>TextProcessor.chunk_text\<close> of \<open>text_processor.py\<close>. The configuration
  constants are those of \<open>config.py\<close>.\<close>

definition CHUNK_SIZE :: int where
  "CHUNK_SIZE = 1000"

definition CHUNK_OVERLAP :: int where
  "CHUNK_OVERLAP = 200"

definition MAX_CHUNK_SIZE :: int where
  "MAX_CHUNK_SIZE = 8000"

text \<open>The list the source tests \<open>text[i]\<close> against. \<open>text[i]\<close> is a string of one
  character, and membership in a list compares whole strings.\<close>

definition sentence_endings :: "string list" where
  "sentence_endings = [''.'', ''!'', ''?'', [nl, nl]]"

text \<open>The inner loop \<open>for i in range(end, search_start, -1)\<close>: the new \<open>end\<close>, which is
  \<open>i + 1\<close> at the first \<open>i\<close> whose character is in the list, and the old \<open>end\<close> if the
  range is exhausted.\<close>

function snap_loop :: "string \<Rightarrow> int \<Rightarrow> int \<Rightarrow> int \<Rightarrow> py_error + int" where
  "snap_loop text i search_start end =
     (if search_start < i then
        (case py_index text i of
           Inl e \<Rightarrow> Inl e
         | Inr c \<Rightarrow>
             if [c] \<in> set sentence_endings then Inr (i + 1)
             else snap_loop text (i - 1) search_start end)
      else Inr end)"
  by pat_completeness auto
termination
  by (relation "measure (\<lambda>(text, i, search_start, end). nat (i - search_start))") auto

text \<open>The end of the window that starts at \<open>start\<close>.\<close>

definition window_end :: "string \<Rightarrow> int \<Rightarrow> int \<Rightarrow> py_error + int" where
  "window_end text chunk_size start =
     (let text_length = int (length text); end = start + chunk_size
      in if end < text_length
         then snap_loop text end (max (start + chunk_size - 200) start) end
         else Inr end)"

text \<open>The \<open>while\<close> loop. \<open>None\<close> is a loop that never returns.\<close>

partial_function (option) chunk_loop ::
  "string \<Rightarrow> int \<Rightarrow> int \<Rightarrow> int \<Rightarrow> string list \<Rightarrow> (py_error + string list) option" where
  "chunk_loop text chunk_size overlap start chunks =
     (if start < int (length text) then
        (case window_end text chunk_size start of
           Inl e \<Rightarrow> Some (Inl e)
         | Inr end \<Rightarrow>
             (let chunk = py_strip (py_slice text start end);
                  chunks' = (if 50 < length chunk then chunks @ [chunk] else chunks);
                  start' = end - overlap
              in if int (length text) \<le> start' then Some (Inr chunks')
                 else chunk_loop text chunk_size overlap start' chunks'))
      else Some (Inr chunks))"

definition chunk_text :: "string \<Rightarrow> int \<Rightarrow> int \<Rightarrow> (py_error + string list) option" where
  "chunk_text text chunk_size overlap =
     (if py_strip text = [] then Some (Inr [])
      else chunk_loop text chunk_size overlap 0 [])"

declare chunk_loop.simps [code]

declare snap_loop.simps [simp del]

section \<open>Chapter segmenter\<close>

text \<open>\<open>TextProcessor.extract_chapters\<close>. A section is the dictionary with the keys
  \<open>title\<close> and \<open>content\<close>.\<close>

record book_section =
  title :: string
  content :: string

text \<open>\<open>text.split('\n')\<close> and \<open>'\n'.join(lines)\<close>\<close>

fun split_nl :: "string \<Rightarrow> string \<Rightarrow> string list" where
  "split_nl cur [] = [rev cur]"
| "split_nl cur (c # cs) =
     (if c = nl then rev cur # split_nl [] cs else split_nl (c # cur) cs)"

fun join_nl :: "string list \<Rightarrow> string" where
  "join_nl [] = []"
| "join_nl [l] = l"
| "join_nl (l # ls) = l @ nl # join_nl ls"

text \<open>What \<open>(.+)$\<close> captures after a greedy prefix. \<open>rest\<close> is what the greedy prefix
  left over; when nothing is left the matcher backtracks and the group takes the last
  character the prefix had consumed, provided the prefix can spare one (\<open>spare\<close> is
  the part of the prefix that may shrink).\<close>

definition group_rest :: "string \<Rightarrow> string \<Rightarrow> string option" where
  "group_rest spare rest =
     (if rest \<noteq> [] then Some rest
      else if spare \<noteq> [] then Some [last spare]
      else None)"

text \<open>\<open>^Chapter\s+\d+[:\s]*(.+)$\<close>, ignoring case: group 1 of the match.\<close>

definition match_chapter :: "string \<Rightarrow> string option" where
  "match_chapter line =
     (if prefix_ci chapter_ci line then
        (let r = drop 7 line;
             ws = takeWhile is_space r; r1 = dropWhile is_space r;
             ds = takeWhile is_digit r1; r2 = dropWhile is_digit r1;
             sep = takeWhile (\<lambda>c. c = CHR '':'' \<or> is_space c) r2;
             rest = dropWhile (\<lambda>c. c = CHR '':'' \<or> is_space c) r2
         in if ws = [] \<or> ds = [] then None
            else group_rest (if sep \<noteq> [] then sep else tl ds) rest)
      else None)"

text \<open>\<open>^\d+[.\s]*(.+)$\<close>\<close>

definition match_numbered :: "string \<Rightarrow> string option" where
  "match_numbered line =
     (let ds = takeWhile is_digit line; r1 = dropWhile is_digit line;
          sep = takeWhile (\<lambda>c. c = CHR ''.'' \<or> is_space c) r1;
          rest = dropWhile (\<lambda>c. c = CHR ''.'' \<or> is_space c) r1
      in if ds = [] then None
         else group_rest (if sep \<noteq> [] then sep else tl ds) rest)"

text \<open>\<open>^#\s*(.+)$\<close>\<close>

definition match_markdown :: "string \<Rightarrow> string option" where
  "match_markdown line =
     (case line of
        [] \<Rightarrow> None
      | c # r \<Rightarrow>
          if c = CHR ''#''
          then group_rest (takeWhile is_space r) (dropWhile is_space r)
          else None)"

text \<open>\<open>^\*\*(.+)\*\*$\<close>\<close>

definition match_bold :: "string \<Rightarrow> string option" where
  "match_bold line =
     (if 5 \<le> length line \<and> take 2 line = ''**'' \<and> drop (length line - 2) line = ''**''
      then Some (take (length line - 4) (drop 2 line))
      else None)"

text \<open>The loop over \<open>chapter_patterns\<close>: the first pattern that matches gives the
  title, \<open>match.group(1).strip()\<close>.\<close>

definition match_header :: "string \<Rightarrow> string option" where
  "match_header line =
     (case match_chapter line of Some g \<Rightarrow> Some (py_strip g)
      | None \<Rightarrow>
     (case match_numbered line of Some g \<Rightarrow> Some (py_strip g)
      | None \<Rightarrow>
     (case match_markdown line of Some g \<Rightarrow> Some (py_strip g)
      | None \<Rightarrow>
     (case match_bold line of Some g \<Rightarrow> Some (py_strip g)
      | None \<Rightarrow> None))))"

text \<open>\<open>if current_chapter:\<close> is false for \<open>None\<close> and for the empty string.\<close>

definition truthy :: "string option \<Rightarrow> bool" where
  "truthy cur \<longleftrightarrow> (case cur of None \<Rightarrow> False | Some t \<Rightarrow> t \<noteq> [])"

definition save_chapter :: "string option \<Rightarrow> string list \<Rightarrow> book_section list \<Rightarrow> book_section list" where
  "save_chapter current_chapter current_content chapters =
     (case current_chapter of
        None \<Rightarrow> chapters
      | Some t \<Rightarrow>
          if t \<noteq> [] then chapters @ [\<lparr>title = t, content = join_nl current_content\<rparr>]
          else chapters)"

text \<open>The loop over the lines, on the state \<open>current_chapter\<close>, \<open>current_content\<close>,
  \<open>chapters\<close>; the result is \<open>chapters\<close> after the last chapter is added.\<close>

fun extract_loop ::
  "string list \<Rightarrow> string option \<Rightarrow> string list \<Rightarrow> book_section list \<Rightarrow> book_section list" where
  "extract_loop [] current_chapter current_content chapters =
     save_chapter current_chapter current_content chapters"
| "extract_loop (l # ls) current_chapter current_content chapters =
     (let line = py_strip l
      in if line = [] then extract_loop ls current_chapter current_content chapters
         else (case match_header line of
                 Some t \<Rightarrow>
                   extract_loop ls (Some t) []
                     (save_chapter current_chapter current_content chapters)
               | None \<Rightarrow>
                   extract_loop ls current_chapter (current_content @ [line]) chapters))"

definition extract_chapters :: "string \<Rightarrow> book_section list" where
  "extract_chapters text = extract_loop (split_nl [] text) None [] []"

text \<open>Lines 151 to 155 of \<open>process_book_file\<close>: the chapters the caller chunks.\<close>

definition book_chapters :: "string \<Rightarrow> book_section list" where
  "book_chapters doc =
     (let chapters = extract_chapters doc
      in if chapters = [] then [\<lparr>title = ''Full Text'', content = doc\<rparr>]
         else chapters)"

section \<open>Chunk validator\<close>

text \<open>\<open>TextProcessor.validate_chunks\<close>. Comparing a string with a number raises
  \<open>TypeError\<close>; reading a missing key raises \<open>KeyError\<close>.\<close>

definition get_item :: "chunk \<Rightarrow> string \<Rightarrow> py_error + pyval" where
  "get_item c k = (case c k of None \<Rightarrow> Inl KeyError | Some v \<Rightarrow> Inr v)"

definition py_less_int :: "pyval \<Rightarrow> int \<Rightarrow> py_error + bool" where
  "py_less_int v n = (case v of PInt m \<Rightarrow> Inr (m < n) | PStr s \<Rightarrow> Inl TypeError)"

definition py_greater_int :: "pyval \<Rightarrow> int \<Rightarrow> py_error + bool" where
  "py_greater_int v n = (case v of PInt m \<Rightarrow> Inr (n < m) | PStr s \<Rightarrow> Inl TypeError)"

definition required_fields :: "string list" where
  "required_fields = [''book_title'', ''chapter'', ''text'']"

fun validate_loop :: "chunk list \<Rightarrow> chunk list \<Rightarrow> py_error + chunk list" where
  "validate_loop [] valid_chunks = Inr valid_chunks"
| "validate_loop (c # cs) valid_chunks =
     (case get_item c ''word_count'' of
        Inl e \<Rightarrow> Inl e
      | Inr wc \<Rightarrow>
     (case py_less_int wc 10 of
        Inl e \<Rightarrow> Inl e
      | Inr True \<Rightarrow> validate_loop cs valid_chunks
      | Inr False \<Rightarrow>
     (case get_item c ''token_count'' of
        Inl e \<Rightarrow> Inl e
      | Inr tc \<Rightarrow>
     (case py_greater_int tc MAX_CHUNK_SIZE of
        Inl e \<Rightarrow> Inl e
      | Inr True \<Rightarrow> validate_loop cs valid_chunks
      | Inr False \<Rightarrow>
          if list_all (\<lambda>field. field \<in> dom c) required_fields
          then validate_loop cs (valid_chunks @ [c])
          else validate_loop cs valid_chunks))))"

definition validate_chunks :: "chunk list \<Rightarrow> py_error + chunk list" where
  "validate_chunks chunks = validate_loop chunks []"

section \<open>Quality filter\<close>

text \<open>\<open>is_quality_chunk\<close> of \<open>api_server.py\<close>, one definition for each rule.\<close>




















section \<open>Retriever\<close>

text \<open>\<open>search_books\<close> of \<open>api_server.py\<close>.\<close>


text \<open>\<open>min(chunk.get('word_count', 0) / 100, 0.3)\<close>\<close>

definition word_count_boost :: "chunk \<Rightarrow> py_error + rat" where
  "word_count_boost c =
     (case c ''word_count'' of
        None \<Rightarrow> Inr (min (0 / 100) (3 / 10))
      | Some (PInt n) \<Rightarrow> Inr (min (of_int n / 100) (3 / 10))
      | Some (PStr s) \<Rightarrow> Inl TypeError)"

text \<open>The body of the scoring loop: the adjusted similarity of one chunk.\<close>

definition adjusted_similarity :: "string \<Rightarrow> chunk \<Rightarrow> py_error + rat" where
  "adjusted_similarity question c =
     (case c ''text'' of
        None \<Rightarrow> Inl KeyError
      | Some (PInt n) \<Rightarrow> Inl AttributeError
      | Some (PStr t) \<Rightarrow>
          (let similarity = simple_text_similarity question t
           in case word_count_boost c of
                Inl e \<Rightarrow> Inl e
              | Inr b \<Rightarrow> Inr (similarity + b)))"






section \<open>Properties of the lexical scorer\<close>

lemma card_inter_le_union:
  "finite A \<Longrightarrow> finite B \<Longrightarrow> card (A \<inter> B) \<le> card (A \<union> B)"
  by (rule card_mono) auto

lemma similarity_unfold:
  "simple_text_similarity q t =
     (if set (findall_w (lower q)) = {} \<or> set (findall_w (lower t)) = {} then 0
      else of_nat (card (set (findall_w (lower q)) \<inter> set (findall_w (lower t))))
           / of_nat (card (set (findall_w (lower q)) \<union> set (findall_w (lower t)))))"
  unfolding simple_text_similarity_def Let_def by (rule refl)

lemma similarity_nonneg: "0 \<le> simple_text_similarity q t"
  unfolding similarity_unfold by simp

lemma similarity_le_one: "simple_text_similarity q t \<le> 1"
proof -
  let ?A = "set (findall_w (lower q))" and ?B = "set (findall_w (lower t))"
  have "card (?A \<inter> ?B) \<le> card (?A \<union> ?B)"
    by (rule card_inter_le_union) simp_all
  then have "(of_nat (card (?A \<inter> ?B)) :: rat) \<le> of_nat (card (?A \<union> ?B))"
    by (simp only: of_nat_le_iff)
  then have "(of_nat (card (?A \<inter> ?B)) :: rat) / of_nat (card (?A \<union> ?B)) \<le> 1"
    by (cases "card (?A \<union> ?B) = 0") (simp_all only: of_nat_0 div_by_0 zero_le_one
      divide_le_eq_1_pos of_nat_0_less_iff neq0_conv)
  then show ?thesis
    unfolding similarity_unfold by simp
qed

lemma similarity_self:
  assumes "set (findall_w (lower q)) \<noteq> {}"
  shows "simple_text_similarity q q = 1"
proof -
  have "card (set (findall_w (lower q))) \<noteq> 0"
    using assms by simp
  then show ?thesis
    unfolding similarity_unfold using assms by simp
qed

text \<open>
  Claim C2. For every query and text the lexical score is the size of the intersection
  of the two lower-case word sets divided by the size of their union, it is 0 when one
  of the sets is empty, it lies between 0 and 1, and the score of a query against
  itself is 1 when the query has a word.
\<close>

theorem lexical_score_jaccard:
  "simple_text_similarity q t =
     (if set (findall_w (lower q)) = {} \<or> set (findall_w (lower t)) = {} then 0
      else of_nat (card (set (findall_w (lower q)) \<inter> set (findall_w (lower t))))
           / of_nat (card (set (findall_w (lower q)) \<union> set (findall_w (lower t)))))
   \<and> 0 \<le> simple_text_similarity q t
   \<and> simple_text_similarity q t \<le> 1
   \<and> (set (findall_w (lower q)) \<noteq> {} \<longrightarrow> simple_text_similarity q q = 1)"
  using similarity_unfold [of q t] similarity_nonneg [of q t] similarity_le_one [of q t]
    similarity_self [of q]
  by blast

theorem lexical_score_jaccard_witness:
  "set (findall_w (lower ''Mind and body'')) \<noteq> {}
   \<and> simple_text_similarity ''Mind and body'' ''Mind and body'' = 1
   \<and> simple_text_similarity ''Mind and body'' ''the body'' = 1 / 4"
proof -
  have w: "set (findall_w (lower ''Mind and body'')) \<noteq> {}"
    by code_simp
  have v: "simple_text_similarity ''Mind and body'' ''the body'' = 1 / 4"
    by code_simp
  from lexical_score_jaccard [of "''Mind and body''" "''the body''"] w v
  show ?thesis by blast
qed

text \<open>
  Claim C8, as the source computes it. The chunk text has seven distinct words, one of
  them the query word, so the union has seven elements and the score is 1/7.
\<close>

theorem consciousness_score_not_eighth:
  "simple_text_similarity ''consciousness''
     ''Bob writes extensively about consciousness and awareness.'' \<noteq> 1 / 8"
  by code_simp

theorem consciousness_score_seventh:
  "simple_text_similarity ''consciousness''
     ''Bob writes extensively about consciousness and awareness.'' = 1 / 7
   \<and> card (set (findall_w (lower ''consciousness''))
            \<union> set (findall_w (lower ''Bob writes extensively about consciousness and awareness.''))) = 7"
  by code_simp

section \<open>Properties of the chunker\<close>

lemma snap_loop_Inr:
  "snap_loop t i ss e0 = Inr e \<Longrightarrow> e = e0 \<or> (ss + 2 \<le> e \<and> e \<le> i + 1)"
proof (induction t i ss e0 rule: snap_loop.induct)
  case (1 t i ss e0)
  show ?case
  proof (cases "ss < i")
    case False
    with "1.prems" show ?thesis by (simp add: snap_loop.simps [of t i])
  next
    case True
    note unf = snap_loop.simps [of t i ss e0]
    show ?thesis
    proof (cases "py_index t i")
      case (Inl x)
      with True "1.prems" show ?thesis by (simp add: unf)
    next
      case (Inr c)
      show ?thesis
      proof (cases "[c] \<in> set sentence_endings")
        case True
        with \<open>ss < i\<close> Inr "1.prems" show ?thesis by (auto simp: unf)
      next
        case False
        with \<open>ss < i\<close> Inr "1.prems" have "snap_loop t (i - 1) ss e0 = Inr e" by (simp add: unf)
        from "1.IH" [OF \<open>ss < i\<close> Inr False this] show ?thesis by auto
      qed
    qed
  qed
qed

lemma py_index_error: "py_index xs i = Inl x \<Longrightarrow> x = IndexError"
  by (auto simp: py_index_def split: if_splits)

lemma py_index_ok: "0 \<le> i \<Longrightarrow> i < int (length xs) \<Longrightarrow> \<exists>c. py_index xs i = Inr c"
  by (simp add: py_index_def)

lemma snap_loop_Inl:
  "snap_loop t i ss e0 = Inl x \<Longrightarrow> x = IndexError"
proof (induction t i ss e0 rule: snap_loop.induct)
  case (1 t i ss e0)
  show ?case
  proof (cases "ss < i")
    case False
    with "1.prems" show ?thesis by (simp add: snap_loop.simps [of t i])
  next
    case True
    note unf = snap_loop.simps [of t i ss e0]
    show ?thesis
    proof (cases "py_index t i")
      case (Inl y)
      with True "1.prems" have "x = y" by (simp add: unf)
      with Inl show ?thesis by (simp add: py_index_error)
    next
      case (Inr c)
      show ?thesis
      proof (cases "[c] \<in> set sentence_endings")
        case True
        with \<open>ss < i\<close> Inr "1.prems" show ?thesis by (auto simp: unf)
      next
        case False
        with \<open>ss < i\<close> Inr "1.prems" have "snap_loop t (i - 1) ss e0 = Inl x" by (simp add: unf)
        from "1.IH" [OF \<open>ss < i\<close> Inr False this] show ?thesis .
      qed
    qed
  qed
qed

lemma snap_loop_total:
  "0 \<le> ss \<Longrightarrow> i < int (length t) \<Longrightarrow> \<exists>e. snap_loop t i ss e0 = Inr e"
proof (induction t i ss e0 rule: snap_loop.induct)
  case (1 t i ss e0)
  show ?case
  proof (cases "ss < i")
    case False
    then show ?thesis by (simp add: snap_loop.simps [of t i])
  next
    case True
    note unf = snap_loop.simps [of t i ss e0]
    from True "1.prems" obtain c where c: "py_index t i = Inr c"
      using py_index_ok [of i t] by auto
    show ?thesis
    proof (cases "[c] \<in> set sentence_endings")
      case True
      with \<open>ss < i\<close> c show ?thesis by (simp add: unf)
    next
      case False
      from "1.IH" [OF \<open>ss < i\<close> c False] "1.prems"
      obtain e where "snap_loop t (i - 1) ss e0 = Inr e" by auto
      with \<open>ss < i\<close> c False show ?thesis by (simp add: unf)
    qed
  qed
qed

lemma window_end_Inr:
  "window_end text cs start = Inr e \<Longrightarrow>
     e = start + cs \<or>
     (start + cs < int (length text) \<and> max (start + cs - 200) start + 2 \<le> e \<and> e \<le> start + cs + 1)"
  by (auto simp: window_end_def Let_def split: if_splits dest!: snap_loop_Inr)

lemma window_end_Inl: "window_end text cs start = Inl x \<Longrightarrow> x = IndexError"
  by (auto simp: window_end_def Let_def split: if_splits dest: snap_loop_Inl)

lemma window_end_total: "0 \<le> start \<Longrightarrow> \<exists>e. window_end text cs start = Inr e"
  using snap_loop_total [of "max (start + cs - 200) start" "start + cs" "text" "start + cs"]
  by (auto simp: window_end_def Let_def)


lemma py_strip_idem: "py_strip (py_strip s) = py_strip s"
proof -
  define u where "u = dropWhile is_space s"
  define v where "v = rev (dropWhile is_space (rev u))"
  have tail: "dropWhile is_space (rev v) = rev v"
    unfolding v_def by (simp add: dropWhile_eq_self_iff hd_dropWhile)
  have front: "dropWhile is_space v = v"
  proof (cases "v = []")
    case True
    then show ?thesis by (metis dropWhile.simps(1))
  next
    case False
    have split: "u = v @ rev (takeWhile is_space (rev u))"
      unfolding v_def by (metis rev_append rev_rev_ident takeWhile_dropWhile_id)
    with False have hd: "hd v = hd u"
      by (metis hd_append2)
    from split False have "u \<noteq> []" by (metis append_is_Nil_conv)
    then have "\<not> is_space (hd u)"
      unfolding u_def by (rule hd_dropWhile)
    with hd False show ?thesis
      by (simp add: dropWhile_eq_self_iff)
  qed
  have "py_strip s = v"
    unfolding py_strip_def v_def u_def by (rule refl)
  moreover have "py_strip v = v"
    unfolding py_strip_def using front tail by simp
  ultimately show ?thesis by simp
qed

lemma chunk_loop_terminates:
  assumes ov: "overlap < cs" "overlap < max (cs - 198) 2"
  shows "0 \<le> start \<Longrightarrow> \<forall>c\<in>set chunks. 50 < length (py_strip c) \<Longrightarrow>
         \<exists>r. chunk_loop t cs overlap start chunks = Some (Inr r)
              \<and> (\<forall>c\<in>set r. 50 < length (py_strip c))"
proof (induction "nat (int (length t) - start)" arbitrary: start chunks rule: less_induct)
  case less
  note unf = chunk_loop.simps [of t cs overlap start chunks]
  show ?case
  proof (cases "start < int (length t)")
    case False
    with less.prems show ?thesis by (simp add: unf)
  next
    case True
    from window_end_total [OF less.prems(1)] obtain e where e: "window_end t cs start = Inr e"
      by blast
    define chunk where "chunk = py_strip (py_slice t start e)"
    define chunks' where "chunks' = (if 50 < length chunk then chunks @ [chunk] else chunks)"
    have good: "\<forall>c\<in>set chunks'. 50 < length (py_strip c)"
      using less.prems(2) by (simp add: chunks'_def chunk_def py_strip_idem)
    from window_end_Inr [OF e] ov have adv: "start < e - overlap"
      by linarith
    have step: "chunk_loop t cs overlap start chunks =
        (if int (length t) \<le> e - overlap then Some (Inr chunks')
         else chunk_loop t cs overlap (e - overlap) chunks')"
      using True e by (simp add: unf Let_def chunk_def chunks'_def)
    show ?thesis
    proof (cases "int (length t) \<le> e - overlap")
      case True
      with good show ?thesis by (simp add: step)
    next
      case False
      have lt: "nat (int (length t) - (e - overlap)) < nat (int (length t) - start)"
        using adv True by linarith
      have nn: "0 \<le> e - overlap" using adv less.prems(1) by linarith
      from less.hyps [OF lt nn good] False show ?thesis
        by (simp add: step)
    qed
  qed
qed

lemma chunk_loop_stuck:
  assumes st: "st < int (length t)"
    and w: "window_end t cs st = Inr e"
    and short: "length (py_strip (py_slice t st e)) \<le> 50"
    and same: "e - ov = st"
  shows "chunk_loop t cs ov st ch = None"
proof (rule ccontr)
  assume "chunk_loop t cs ov st ch \<noteq> None"
  then obtain y where y: "chunk_loop t cs ov st ch = Some y" by blast
  have "\<not> (t = t \<and> cs = cs \<and> ov = ov \<and> st = st \<and> ch = ch)"
    apply (rule chunk_loop.raw_induct
        [where P = "\<lambda>t' cs' ov' st' ch' y. \<not> (t' = t \<and> cs' = cs \<and> ov' = ov \<and> st' = st \<and> ch' = ch)",
         OF _ y])
    subgoal premises p for f t' cs' ov' st' ch' y'
    proof
      assume a: "t' = t \<and> cs' = cs \<and> ov' = ov \<and> st' = st \<and> ch' = ch"
      with p(2) st w short same have "f t cs ov st ch = Some y'"
        by (simp add: Let_def)
      from p(1) [OF this] show False by simp
    qed
    done
  then show False by simp
qed

lemma chunk_loop_no_return:
  assumes big: "cs \<le> ov" "1 \<le> ov"
    and st: "st < int (length t)"
    and y: "chunk_loop t cs ov st ch = Some y"
  shows "y = Inl IndexError"
proof -
  have "st < int (length t) \<and> cs \<le> ov \<and> 1 \<le> ov \<longrightarrow> y = Inl IndexError"
    apply (rule chunk_loop.raw_induct
        [where P = "\<lambda>t' cs' ov' st' ch' y'.
            st' < int (length t') \<and> cs' \<le> ov' \<and> 1 \<le> ov' \<longrightarrow> y' = Inl IndexError",
         OF _ y])
    subgoal premises p for f t' cs' ov' st' ch' y'
    proof
      assume a: "st' < int (length t') \<and> cs' \<le> ov' \<and> 1 \<le> ov'"
      show "y' = Inl IndexError"
      proof (cases "window_end t' cs' st'")
        case (Inl x)
        with p(2) a window_end_Inl [OF Inl] show ?thesis by simp
      next
        case (Inr e)
        from window_end_Inr [OF Inr] a have lt: "\<not> int (length t') \<le> e - ov'"
          by auto
        define ch2 where
          "ch2 = (if 50 < length (py_strip (py_slice t' st' e))
                  then ch' @ [py_strip (py_slice t' st' e)] else ch')"
        from p(2) a Inr lt have "f t' cs' ov' (e - ov') ch2 = Some y'"
          by (simp add: Let_def ch2_def)
        from p(1) [OF this] lt a show ?thesis by simp
      qed
    qed
    done
  with big st show ?thesis by simp
qed

text \<open>One iteration of the loop, for evaluating it on a given text.\<close>

lemma chunk_loop_last:
  assumes "start < int (length t)" "window_end t cs start = Inr e" "int (length t) \<le> e - ov"
  shows "chunk_loop t cs ov start ch =
    Some (Inr (if 50 < length (py_strip (py_slice t start e))
               then ch @ [py_strip (py_slice t start e)] else ch))"
  using assms by (simp add: chunk_loop.simps [of t cs ov start ch] Let_def)

lemma chunk_loop_next:
  assumes "start < int (length t)" "window_end t cs start = Inr e" "\<not> int (length t) \<le> e - ov"
  shows "chunk_loop t cs ov start ch =
    chunk_loop t cs ov (e - ov)
      (if 50 < length (py_strip (py_slice t start e))
       then ch @ [py_strip (py_slice t start e)] else ch)"
  using assms by (simp add: chunk_loop.simps [of t cs ov start ch] Let_def)

lemma chunk_loop_error:
  assumes "start < int (length t)" "window_end t cs start = Inl x"
  shows "chunk_loop t cs ov start ch = Some (Inl x)"
  using assms by (simp add: chunk_loop.simps [of t cs ov start ch])

text \<open>The blank-line marker of \<open>sentence_endings\<close> has two characters, so no single
  character of the text is equal to it.\<close>

lemma sentence_endings_char:
  "[c] \<in> set sentence_endings \<longleftrightarrow> c = CHR ''.'' \<or> c = CHR ''!'' \<or> c = CHR ''?''"
  by (simp add: sentence_endings_def)

text \<open>
  Claim C3, evaluated on the source. With an overlap below the target size the loop
  still repeats one state for ever: the snap to a sentence end may pull the window end
  back to two characters after the window start (or by up to 198 characters), and the
  next start, \<open>end - overlap\<close>, is then not beyond the old one. On the text \<open>a.aaa\<close>
  with target size 3 and overlap 2 the first window ends after the full stop, at 2,
  the span \<open>a.\<close> is dropped, and the next start is 0 again: \<open>chunk_text\<close> never
  returns.
\<close>

theorem chunk_text_small_overlap_loops:
  "(2::int) < 3 \<and> ''a.aaa'' \<noteq> [] \<and> chunk_text ''a.aaa'' 3 2 = None"
proof -
  have w: "window_end ''a.aaa'' 3 0 = Inr 2" by code_simp
  have c: "length (py_strip (py_slice ''a.aaa'' 0 2)) \<le> 50" by code_simp
  have s: "py_strip ''a.aaa'' \<noteq> []" by code_simp
  have "chunk_loop ''a.aaa'' 3 2 0 [] = None"
    by (rule chunk_loop_stuck [OF _ w c]) simp_all
  with s show ?thesis by (simp add: chunk_text_def)
qed

text \<open>
  A bound under which the loop does advance. When the overlap is below the target size
  and also below the least distance a snapped window end keeps from the window start,
  \<open>max (target_size - 198) 2\<close> (the configured sizes 1000 and 500 with overlap 200
  satisfy both), \<open>chunk_text\<close> returns for every text, without an error, and every
  chunk it returns has more than 50 characters after trimming.
\<close>

lemma chunk_text_terminates:
  assumes "overlap < chunk_size" "overlap < max (chunk_size - 198) 2"
  shows "\<exists>r. chunk_text t chunk_size overlap = Some (Inr r)
             \<and> (\<forall>c\<in>set r. 50 < length (py_strip c))"
proof (cases "py_strip t = []")
  case True
  then show ?thesis by (simp add: chunk_text_def)
next
  case False
  with chunk_loop_terminates [OF assms, of 0 "[]" t] show ?thesis
    by (simp add: chunk_text_def)
qed

lemma chunk_text_terminates_example:
  "CHUNK_OVERLAP < CHUNK_SIZE \<and> CHUNK_OVERLAP < max (CHUNK_SIZE - 198) 2
   \<and> chunk_text ''The mind is a wonderful thing to explore with other people.''
        CHUNK_SIZE CHUNK_OVERLAP
     = Some (Inr [''The mind is a wonderful thing to explore with other people.''])
   \<and> 50 < length (py_strip ''The mind is a wonderful thing to explore with other people.'')"
proof -
  let ?t = "''The mind is a wonderful thing to explore with other people.''"
  have a: "CHUNK_OVERLAP < CHUNK_SIZE" and b: "CHUNK_OVERLAP < max (CHUNK_SIZE - 198) 2"
    by (simp_all add: CHUNK_OVERLAP_def CHUNK_SIZE_def)
  have s: "py_strip ?t \<noteq> []" by code_simp
  have w: "window_end ?t CHUNK_SIZE 0 = Inr 1000" by code_simp
  have c: "py_strip (py_slice ?t 0 1000) = ?t" by code_simp
  have l: "0 < int (length ?t)" "int (length ?t) \<le> 1000 - CHUNK_OVERLAP" "50 < length ?t"
    by (simp_all add: CHUNK_OVERLAP_def)
  have e: "chunk_text ?t CHUNK_SIZE CHUNK_OVERLAP = Some (Inr [?t])"
    unfolding chunk_text_def using s chunk_loop_last [OF l(1) w l(2), of "[]"] c l(3)
    by simp
  from chunk_text_terminates [OF a b, of ?t] e
  have "50 < length (py_strip ?t)" by simp
  with a b e show ?thesis by blast
qed

text \<open>
  Claim C4, as the source behaves. \<open>chunk_text\<close> compares the target size with the
  overlap nowhere. With both equal to 2 on the text \<open>aaaa\<close>, which needs two windows,
  the first window is \<open>aa\<close>, it is dropped as too short, and the next start is 0
  again: the loop never returns and nothing is raised.
\<close>

theorem chunk_text_equal_overlap_loops:
  "(2::int) \<le> 2 \<and> (2::int) < int (length ''aaaa'') \<and> chunk_text ''aaaa'' 2 2 = None"
proof -
  have w: "window_end ''aaaa'' 2 0 = Inr 2" by code_simp
  have c: "length (py_strip (py_slice ''aaaa'' 0 2)) \<le> 50" by code_simp
  have s: "py_strip ''aaaa'' \<noteq> []" by code_simp
  have "chunk_loop ''aaaa'' 2 2 0 [] = None"
    by (rule chunk_loop_stuck [OF _ w c]) simp_all
  with s show ?thesis by (simp add: chunk_text_def)
qed

text \<open>With a larger overlap the start position becomes negative and the search for a
  sentence end reads the text at an index below \<open>-len\<close>.\<close>

lemma chunk_text_large_overlap_index_error:
  "chunk_text ''aaaa'' 2 100 = Some (Inl IndexError)"
proof -
  have s: "py_strip ''aaaa'' \<noteq> []" by code_simp
  have w0: "window_end ''aaaa'' 2 0 = Inr 2" by code_simp
  have w1: "window_end ''aaaa'' 2 (- 98) = Inl IndexError" by code_simp
  have c: "\<not> 50 < length (py_strip (py_slice ''aaaa'' 0 2))" by code_simp
  have "chunk_loop ''aaaa'' 2 100 0 [] = chunk_loop ''aaaa'' 2 100 (- 98) []"
    using chunk_loop_next [of 0 "''aaaa''" 2 2 100 "[]", OF _ w0] c by simp
  also have "\<dots> = Some (Inl IndexError)"
    by (rule chunk_loop_error [OF _ w1]) simp
  finally show ?thesis using s by (simp add: chunk_text_def)
qed

text \<open>
  Claim C4, amended. Called with a target size not above the overlap (and an overlap
  of at least 1) on a text that is not blank, \<open>chunk_text\<close> never returns a list of
  chunks and raises no configuration error: it loops for ever, or it stops with the
  \<open>IndexError\<close> of a negative index.
\<close>

theorem chunk_text_no_fail_fast:
  assumes "chunk_size \<le> overlap" "1 \<le> overlap" "py_strip t \<noteq> []"
  shows "chunk_text t chunk_size overlap = None
         \<or> chunk_text t chunk_size overlap = Some (Inl IndexError)"
proof (cases "chunk_loop t chunk_size overlap 0 []")
  case None
  with assms(3) show ?thesis by (simp add: chunk_text_def)
next
  case (Some y)
  from assms(3) have "t \<noteq> []" by (auto simp: py_strip_def)
  then have "0 < int (length t)" by simp
  from chunk_loop_no_return [OF assms(1,2) this Some] Some assms(3)
  show ?thesis by (simp add: chunk_text_def)
qed

theorem chunk_text_no_fail_fast_witness:
  "(2::int) \<le> 2 \<and> (1::int) \<le> 2 \<and> py_strip ''aaaa'' \<noteq> []
   \<and> (chunk_text ''aaaa'' 2 2 = None \<or> chunk_text ''aaaa'' 2 2 = Some (Inl IndexError))"
proof -
  have s: "py_strip ''aaaa'' \<noteq> []" by code_simp
  from chunk_text_no_fail_fast [of 2 2 "''aaaa''", OF _ _ s] s
  show ?thesis by simp
qed

text \<open>
  Claim C5, evaluated on the source. The text is 60 letters, a blank-line marker (two
  newlines) and 60 letters; the target size is 100. The last 200 characters of the
  first window hold the marker and none of the three sentence-ending characters. The
  window end stays at 100 and the chunk runs across the marker: the end is not moved
  to 62, just after the marker.
\<close>

theorem blank_line_marker_not_snapped:
  "window_end (replicate 60 CHR ''a'' @ [nl, nl] @ replicate 60 CHR ''a'') 100 0 = Inr 100
   \<and> chunk_text (replicate 60 CHR ''a'' @ [nl, nl] @ replicate 60 CHR ''a'') 100 10
     = Some (Inr [replicate 60 CHR ''a'' @ [nl, nl] @ replicate 38 CHR ''a''])"
proof -
  let ?t = "replicate 60 CHR ''a'' @ [nl, nl] @ replicate 60 CHR ''a''"
  let ?c = "replicate 60 CHR ''a'' @ [nl, nl] @ replicate 38 CHR ''a''"
  have s: "py_strip ?t \<noteq> []" by code_simp
  have w0: "window_end ?t 100 0 = Inr 100" by code_simp
  have w1: "window_end ?t 100 90 = Inr 190" by code_simp
  have c0: "py_strip (py_slice ?t 0 100) = ?c" by code_simp
  have c1: "length (py_strip (py_slice ?t 90 190)) = 32" by code_simp
  have "chunk_loop ?t 100 10 0 [] = chunk_loop ?t 100 10 90 [?c]"
    using chunk_loop_next [of 0 ?t 100 100 10 "[]", OF _ w0] c0 by simp
  also have "\<dots> = Some (Inr [?c])"
    using chunk_loop_last [of 90 ?t 100 190 10 "[?c]", OF _ w1] c1 by simp
  finally have "chunk_text ?t 100 10 = Some (Inr [?c])"
    using s by (simp add: chunk_text_def)
  with w0 show ?thesis by blast
qed

section \<open>Properties of the validator\<close>

lemma validate_loop_typed:
  assumes "\<forall>c\<in>set chunks. \<exists>w k. c ''word_count'' = Some (PInt w) \<and> c ''token_count'' = Some (PInt k)"
  shows "validate_loop chunks valid =
     Inr (valid @ filter (\<lambda>c. (\<exists>w. c ''word_count'' = Some (PInt w) \<and> 10 \<le> w)
                          \<and> (\<exists>k. c ''token_count'' = Some (PInt k) \<and> k \<le> MAX_CHUNK_SIZE)
                          \<and> {''book_title'', ''chapter'', ''text''} \<subseteq> dom c) chunks)"
  using assms
proof (induction chunks arbitrary: valid)
  case Nil
  then show ?case by simp
next
  case (Cons c cs)
  then obtain w k where wk: "c ''word_count'' = Some (PInt w)" "c ''token_count'' = Some (PInt k)"
    by auto
  have req: "list_all (\<lambda>field. field \<in> dom c) required_fields
             \<longleftrightarrow> {''book_title'', ''chapter'', ''text''} \<subseteq> dom c"
    by (simp add: required_fields_def)
  from Cons.prems have rest: "\<forall>c\<in>set cs. \<exists>w k. c ''word_count'' = Some (PInt w) \<and> c ''token_count'' = Some (PInt k)"
    by simp
  note IH = Cons.IH [OF rest]
  show ?case
    using wk req
    by (cases "w < 10"; cases "MAX_CHUNK_SIZE < k")
       (simp_all add: IH get_item_def py_less_int_def py_greater_int_def not_less not_le)
qed

text \<open>
  Claim C6, as the source behaves. The source tests that the three required keys are
  present (\<open>field in chunk\<close>), not that their values are non-empty: a chunk whose
  \<open>book_title\<close> and \<open>text\<close> are empty strings is returned.
\<close>

theorem validate_chunks_keeps_empty_fields:
  "validate_chunks
     [[''book_title'' \<mapsto> PStr [], ''chapter'' \<mapsto> PStr ''One'', ''text'' \<mapsto> PStr [],
       ''word_count'' \<mapsto> PInt 12, ''token_count'' \<mapsto> PInt 20]]
   = Inr [[''book_title'' \<mapsto> PStr [], ''chapter'' \<mapsto> PStr ''One'', ''text'' \<mapsto> PStr [],
           ''word_count'' \<mapsto> PInt 12, ''token_count'' \<mapsto> PInt 20]]"
  by (simp add: validate_chunks_def get_item_def py_less_int_def py_greater_int_def
      required_fields_def MAX_CHUNK_SIZE_def)

text \<open>\<open>word_count\<close> is read with \<open>chunk['word_count']\<close> before the required fields are
  looked at, so a chunk without it raises \<open>KeyError\<close>.\<close>

lemma validate_chunks_missing_word_count:
  "validate_chunks
     [[''book_title'' \<mapsto> PStr ''B'', ''chapter'' \<mapsto> PStr ''One'', ''text'' \<mapsto> PStr ''some text'']]
   = Inl KeyError"
  by (simp add: validate_chunks_def get_item_def)

text \<open>
  Claim C6, amended. When every chunk carries an integer \<open>word_count\<close> and an integer
  \<open>token_count\<close>, \<open>validate_chunks\<close> raises nothing and returns, in their order, exactly
  the chunks with \<open>word_count\<close> at least 10, \<open>token_count\<close> at most the ceiling, and
  the keys \<open>book_title\<close>, \<open>chapter\<close> and \<open>text\<close> present, whatever their values.
\<close>

theorem validate_chunks_filter:
  assumes "\<forall>c\<in>set chunks. \<exists>w k. c ''word_count'' = Some (PInt w) \<and> c ''token_count'' = Some (PInt k)"
  shows "validate_chunks chunks =
     Inr (filter (\<lambda>c. (\<exists>w. c ''word_count'' = Some (PInt w) \<and> 10 \<le> w)
                    \<and> (\<exists>k. c ''token_count'' = Some (PInt k) \<and> k \<le> MAX_CHUNK_SIZE)
                    \<and> {''book_title'', ''chapter'', ''text''} \<subseteq> dom c) chunks)"
  using validate_loop_typed [OF assms, of "[]"] by (simp add: validate_chunks_def)

theorem validate_chunks_filter_witness:
  "validate_chunks
     [[''book_title'' \<mapsto> PStr ''B'', ''chapter'' \<mapsto> PStr ''One'', ''text'' \<mapsto> PStr ''t'',
       ''word_count'' \<mapsto> PInt 9, ''token_count'' \<mapsto> PInt 20],
      [''book_title'' \<mapsto> PStr ''B'', ''chapter'' \<mapsto> PStr ''One'', ''text'' \<mapsto> PStr ''u'',
       ''word_count'' \<mapsto> PInt 12, ''token_count'' \<mapsto> PInt 20],
      [''book_title'' \<mapsto> PStr ''B'', ''text'' \<mapsto> PStr ''v'',
       ''word_count'' \<mapsto> PInt 12, ''token_count'' \<mapsto> PInt 20],
      [''book_title'' \<mapsto> PStr ''B'', ''chapter'' \<mapsto> PStr ''One'', ''text'' \<mapsto> PStr ''w'',
       ''word_count'' \<mapsto> PInt 12, ''token_count'' \<mapsto> PInt 8001]]
   = Inr [[''book_title'' \<mapsto> PStr ''B'', ''chapter'' \<mapsto> PStr ''One'', ''text'' \<mapsto> PStr ''u'',
           ''word_count'' \<mapsto> PInt 12, ''token_count'' \<mapsto> PInt 20]]"
proof -
  let ?c1 = "[''book_title'' \<mapsto> PStr ''B'', ''chapter'' \<mapsto> PStr ''One'', ''text'' \<mapsto> PStr ''t'',
       ''word_count'' \<mapsto> PInt 9, ''token_count'' \<mapsto> PInt 20]"
  let ?c2 = "[''book_title'' \<mapsto> PStr ''B'', ''chapter'' \<mapsto> PStr ''One'', ''text'' \<mapsto> PStr ''u'',
       ''word_count'' \<mapsto> PInt 12, ''token_count'' \<mapsto> PInt 20]"
  let ?c3 = "[''book_title'' \<mapsto> PStr ''B'', ''text'' \<mapsto> PStr ''v'',
       ''word_count'' \<mapsto> PInt 12, ''token_count'' \<mapsto> PInt 20]"
  let ?c4 = "[''book_title'' \<mapsto> PStr ''B'', ''chapter'' \<mapsto> PStr ''One'', ''text'' \<mapsto> PStr ''w'',
       ''word_count'' \<mapsto> PInt 12, ''token_count'' \<mapsto> PInt 8001]"
  have typed: "\<forall>c\<in>set [?c1, ?c2, ?c3, ?c4].
      \<exists>w k. c ''word_count'' = Some (PInt w) \<and> c ''token_count'' = Some (PInt k)"
    by simp
  show ?thesis
    unfolding validate_chunks_filter [OF typed]
    by (simp add: MAX_CHUNK_SIZE_def)
qed

section \<open>Properties of the scoring\<close>

text \<open>
  Claim C10. For a chunk with a text and no \<open>word_count\<close> field the scoring raises
  nothing and the adjusted score is the lexical score alone; when the field is stored,
  the boost is computed from the stored number, whatever the text.
\<close>

theorem missing_word_count_no_boost:
  "(c ''text'' = Some (PStr t) \<and> c ''word_count'' = None
      \<longrightarrow> adjusted_similarity q c = Inr (simple_text_similarity q t))
   \<and> (c ''text'' = Some (PStr t) \<and> c ''word_count'' = Some (PInt n)
      \<longrightarrow> adjusted_similarity q c
          = Inr (simple_text_similarity q t + min (of_int n / 100) (3 / 10)))"
  by (simp add: adjusted_similarity_def word_count_boost_def)

theorem missing_word_count_no_boost_witness:
  "[''text'' \<mapsto> PStr ''the mind''] ''text'' = Some (PStr ''the mind'')
   \<and> [''text'' \<mapsto> PStr ''the mind''] ''word_count'' = None
   \<and> adjusted_similarity ''mind'' [''text'' \<mapsto> PStr ''the mind''] = Inr (1 / 2)
   \<and> adjusted_similarity ''mind'' [''text'' \<mapsto> PStr ''the mind'', ''word_count'' \<mapsto> PInt 7]
     = Inr (57 / 100)"
proof -
  have s: "simple_text_similarity ''mind'' ''the mind'' = 1 / 2" by code_simp
  from missing_word_count_no_boost
      [where c = "[''text'' \<mapsto> PStr ''the mind'']" and t = "''the mind''" and q = "''mind''"]
    missing_word_count_no_boost
      [where c = "[''text'' \<mapsto> PStr ''the mind'', ''word_count'' \<mapsto> PInt 7]"
         and t = "''the mind''" and n = 7 and q = "''mind''"]
    s
  show ?thesis by simp
qed


section \<open>Properties of the quality filter\<close>




section \<open>Properties of the chapter segmenter\<close>

lemma split_nl_append:
  "split_nl cur (a @ nl # b) = split_nl cur a @ split_nl [] b"
  by (induction a arbitrary: cur) simp_all

lemma save_chapter_closed:
  "\<not> truthy cur \<Longrightarrow> save_chapter cur c chs = chs"
  by (simp add: truthy_def save_chapter_def split: option.splits)

lemma extract_loop_content_irrelevant:
  "\<not> truthy cur \<Longrightarrow> extract_loop ls cur c1 chs = extract_loop ls cur c2 chs"
proof (induction ls arbitrary: c1 c2)
  case Nil
  then show ?case by (simp add: save_chapter_closed)
next
  case (Cons l ls)
  show ?case
  proof (cases "py_strip l = []")
    case True
    with Cons show ?thesis by simp
  next
    case False
    show ?thesis
    proof (cases "match_header (py_strip l)")
      case None
      with False Cons.IH [OF Cons.prems, of "c1 @ [py_strip l]" "c2 @ [py_strip l]"]
      show ?thesis by simp
    next
      case (Some t)
      with False Cons.prems show ?thesis by (simp add: save_chapter_closed)
    qed
  qed
qed

lemma extract_loop_no_header:
  "\<forall>l\<in>set xs. match_header (py_strip l) = None \<Longrightarrow>
   extract_loop (xs @ ys) cur c chs =
   extract_loop ys cur (c @ filter (\<lambda>l. l \<noteq> []) (map py_strip xs)) chs"
proof (induction xs arbitrary: c)
  case Nil
  then show ?case by simp
next
  case (Cons l xs)
  then have IH: "\<And>c. extract_loop (xs @ ys) cur c chs =
      extract_loop ys cur (c @ filter (\<lambda>l. l \<noteq> []) (map py_strip xs)) chs"
    and none: "match_header (py_strip l) = None"
    by simp_all
  show ?case
    by (cases "py_strip l = []") (simp_all add: none IH)
qed

lemma leading_lines_discarded:
  assumes "\<forall>l\<in>set (split_nl [] pre). match_header (py_strip l) = None"
  shows "extract_chapters (pre @ nl # rest) = extract_chapters rest"
proof -
  have "extract_chapters (pre @ nl # rest) =
        extract_loop (split_nl [] pre @ split_nl [] rest) None [] []"
    by (simp add: extract_chapters_def split_nl_append)
  also have "\<dots> = extract_loop (split_nl [] rest) None
        ([] @ filter (\<lambda>l. l \<noteq> []) (map py_strip (split_nl [] pre))) []"
    by (rule extract_loop_no_header [OF assms])
  also have "\<dots> = extract_loop (split_nl [] rest) None [] []"
    by (rule extract_loop_content_irrelevant) (simp add: truthy_def)
  finally show ?thesis by (simp add: extract_chapters_def)
qed

lemma no_heading_no_chapters:
  assumes "\<forall>l\<in>set (split_nl [] doc). match_header (py_strip l) = None"
  shows "extract_chapters doc = []"
proof -
  have "extract_loop (split_nl [] doc @ []) None [] [] =
        extract_loop [] None ([] @ filter (\<lambda>l. l \<noteq> []) (map py_strip (split_nl [] doc))) []"
    by (rule extract_loop_no_header [OF assms])
  then show ?thesis
    by (simp add: extract_chapters_def save_chapter_def)
qed

text \<open>
  Claim C7. When no line of the leading part \<open>pre\<close> of a document is a heading, the
  sections of the document are those of the rest alone: the leading body lines occur in
  no section. When no line of the whole document is a heading, the segmenter emits no
  section and the caller takes the whole document as one section titled \<open>Full Text\<close>.
\<close>

theorem leading_text_discarded_and_full_text:
  "((\<forall>l\<in>set (split_nl [] pre). match_header (py_strip l) = None)
      \<longrightarrow> extract_chapters (pre @ nl # rest) = extract_chapters rest)
   \<and> ((\<forall>l\<in>set (split_nl [] doc). match_header (py_strip l) = None)
      \<longrightarrow> extract_chapters doc = []
          \<and> book_chapters doc = [\<lparr>title = ''Full Text'', content = doc\<rparr>])"
  using leading_lines_discarded [of pre rest] no_heading_no_chapters [of doc]
  by (simp add: book_chapters_def)

theorem leading_text_discarded_and_full_text_witness:
  "list_all (\<lambda>l. match_header (py_strip l) = None)
     (split_nl [] (''A foreword.'' @ nl # ''More words''))
   \<and> extract_chapters
        ((''A foreword.'' @ nl # ''More words'') @ nl #
         (''Chapter 1: Origins'' @ nl # ''Text A.'' @ nl # nl # ''Chapter 2: Growth'' @ nl # ''Text B.''))
     = [\<lparr>title = ''Origins'', content = ''Text A.''\<rparr>,
        \<lparr>title = ''Growth'', content = ''Text B.''\<rparr>]
   \<and> extract_chapters (''A foreword.'' @ nl # ''More words'') = []
   \<and> book_chapters (''A foreword.'' @ nl # ''More words'')
     = [\<lparr>title = ''Full Text'', content = ''A foreword.'' @ nl # ''More words''\<rparr>]"
proof -
  let ?pre = "''A foreword.'' @ nl # ''More words''"
  let ?rest = "''Chapter 1: Origins'' @ nl # ''Text A.'' @ nl # nl # ''Chapter 2: Growth'' @ nl # ''Text B.''"
  have none: "\<forall>l\<in>set (split_nl [] ?pre). match_header (py_strip l) = None"
    by code_simp
  have rest: "extract_chapters ?rest
     = [\<lparr>title = ''Origins'', content = ''Text A.''\<rparr>,
        \<lparr>title = ''Growth'', content = ''Text B.''\<rparr>]"
    by code_simp
  from leading_text_discarded_and_full_text [of ?pre ?rest ?pre] none
  have "extract_chapters (?pre @ nl # ?rest) = extract_chapters ?rest"
    and "extract_chapters ?pre = []"
    and "book_chapters ?pre = [\<lparr>title = ''Full Text'', content = ?pre\<rparr>]"
    by blast+
  with none rest show ?thesis
    by (simp only: list_all_iff)
qed

section \<open>Properties of the retriever\<close>
















end
